theory Spec2Isabelle
  imports Main "HOL-Library.Word"
begin

unbundle bit_operations_syntax

section \<open>The response rate limiter of the authoritative server\<close>

text \<open>
  This theory embeds \<^verbatim>\<open>src/bin/auth/rrl/rrl.cc\<close>: the mask builder \<^verbatim>\<open>setMask\<close>, the
  constructor of \<^verbatim>\<open>ResponseLimiterImpl\<close>, the accessors of \<^verbatim>\<open>ResponseLimiter\<close>,
  \<^verbatim>\<open>convertRcode\<close> and \<^verbatim>\<open>ResponseLimiter::check\<close>.

  The classes the limiter owns (\<^verbatim>\<open>RRLTable\<close>, \<^verbatim>\<open>RRLEntry\<close>, \<^verbatim>\<open>RRLKey\<close>,
  \<^verbatim>\<open>RRLEntry::TimestampBases\<close>) live in other files. The functions of \<^verbatim>\<open>rrl.cc\<close> take
  them as a record of collaborators, so every statement about \<^verbatim>\<open>rrl.cc\<close> holds for
  any implementation of them. A second part of the theory gives one implementation,
  written from the specification, for the statements that are about the table itself and
  for concrete runs.
\<close>

subsection \<open>Machine types\<close>

text \<open>
  \<^verbatim>\<open>size_t\<close> is 64 bits wide and \<^verbatim>\<open>int\<close> 32 bits (LP64). A value of type \<^verbatim>\<open>int\<close> is
  an \<^typ>\<open>int\<close> here; the two conversions of the source that can change a value are
  written out: \<^verbatim>\<open>size_t\<close> to \<^verbatim>\<open>int\<close> keeps the low 32 bits and reads them as two's
  complement, \<^verbatim>\<open>int\<close> to \<^verbatim>\<open>size_t\<close> extends the sign.
\<close>

type_synonym size_t = "64 word"
type_synonym uint8_t = "8 word"
type_synonym uint32_t = "32 word"
type_synonym time_t = int

definition int_of_size_t :: "size_t \<Rightarrow> int" where
  "int_of_size_t n = sint (ucast n :: 32 word)"

definition size_t_of_int :: "int \<Rightarrow> size_t" where
  "size_t_of_int i = word_of_int i"

subsection \<open>setMask\<close>

text \<open>
  \<^verbatim>\<open>while (plen > 8) { buf.push_back(0xff); plen -= 8; }\<close>
\<close>

function setMask_loop :: "uint8_t list \<Rightarrow> int \<Rightarrow> uint8_t list \<times> int" where
  "setMask_loop buf plen =
     (if plen > 8 then setMask_loop (buf @ [0xff]) (plen - 8) else (buf, plen))"
  by pat_completeness auto
termination
  by (relation "measure (\<lambda>(buf, plen). nat plen)") auto

text \<open>
  The buffer as it stands when the first assertion is reached. \<^verbatim>\<open>0xff << (8 - plen)\<close> is
  computed on \<^verbatim>\<open>int\<close> and \<^verbatim>\<open>push_back\<close> keeps its low byte.
\<close>

definition setMask_buf :: "int \<Rightarrow> uint8_t list" where
  "setMask_buf plen =
     (case setMask_loop [] plen of
        (buf, plen') \<Rightarrow>
          if plen' > 0
          then buf @ [ucast (push_bit (nat (8 - plen')) (0xff :: 32 word))]
          else buf)"

text \<open>
  \<^verbatim>\<open>setMask(mask, mask_len, plen)\<close>: \<open>None\<close> when one of the two assertions fails,
  otherwise the \<open>mask_len\<close> bytes that \<^verbatim>\<open>memcpy\<close> stores at \<^verbatim>\<open>mask\<close>.
\<close>

definition setMask :: "nat \<Rightarrow> int \<Rightarrow> uint8_t list option" where
  "setMask mask_len plen =
     (let buf = setMask_buf plen in
      if \<not> length buf \<le> mask_len then None
      else
        let buf2 = buf @ replicate (mask_len - length buf) 0 in
        if length buf2 \<noteq> mask_len then None
        else Some (take mask_len buf2))"

text \<open>
  Bit \<open>i\<close> of a mask in network order: bit 0 is the most significant bit of the first
  byte. The masks are kept as the bytes \<^verbatim>\<open>memcpy\<close> wrote (the members \<^verbatim>\<open>uint32_t ipv4_mask_\<close> and
  \<^verbatim>\<open>uint32_t ipv6_mask_[4]\<close>, in memory order).
\<close>

definition mask_bit :: "uint8_t list \<Rightarrow> nat \<Rightarrow> bool" where
  "mask_bit m i = bit (m ! (i div 8)) (7 - i mod 8)"

subsection \<open>Types of the collaborators\<close>

datatype ResponseType = RESPONSE_QUERY | RESPONSE_NXDOMAIN | RESPONSE_ERROR

datatype Result = RRL_OK | RRL_DROP | RRL_SLIP

text \<open>
  Modelled from the spec: \<^verbatim>\<open>dns/rcode.h\<close>, \<^verbatim>\<open>dns/rrclass.h\<close>, \<^verbatim>\<open>dns/rrtype.h\<close>,
  \<^verbatim>\<open>dns/labelsequence.h\<close> and \<^verbatim>\<open>asiolink/io_endpoint.h\<close> are not among the sources. An
  \<^verbatim>\<open>Rcode\<close> is its numeric code, compared by code; \<^verbatim>\<open>NOERROR\<close> is code 0 and
  \<^verbatim>\<open>NXDOMAIN\<close> code 3, every other code is one of the "unknown or other" rcodes of the
  specification. A class and a type are 16-bit codes, a query name is the string of its
  wire-format labels, an endpoint is an address family and the address bytes.
\<close>

datatype Rcode = Rcode (getCode: "16 word")

text \<open>
  Modelled from the spec: the constants \<^verbatim>\<open>Rcode::NOERROR()\<close> and \<^verbatim>\<open>Rcode::NXDOMAIN()\<close> of the
  missing \<^verbatim>\<open>dns/rcode.h\<close>, by their codes in the DNS protocol.
\<close>

definition Rcode_NOERROR :: Rcode where
  "Rcode_NOERROR = Rcode 0"

definition Rcode_NXDOMAIN :: Rcode where
  "Rcode_NXDOMAIN = Rcode 3"

type_synonym RRClass = "16 word"
type_synonym RRType = "16 word"
type_synonym LabelSequence = string

datatype AddrFamily = AF_INET | AF_INET6

datatype IOEndpoint = IOEndpoint (getFamily: AddrFamily) (getAddress: "uint8_t list")

text \<open>
  Modelled from the spec: \<^verbatim>\<open>rrl_rate.h\<close> is not among the sources. The rate vector
  "holds three configured rates; \<open>rate(category)\<close> returns responses-per-second".
\<close>

record RRLRate =
  responses_per_second :: int
  nxdomains_per_second :: int
  errors_per_second :: int

text \<open>
  Modelled from the spec: the constructor of \<^verbatim>\<open>RRLRate\<close> (\<^verbatim>\<open>rrl_rate.h\<close> is missing) stores
  the three configured rates.
\<close>

definition new_RRLRate :: "int \<Rightarrow> int \<Rightarrow> int \<Rightarrow> RRLRate" where
  "new_RRLRate rps nps eps =
     \<lparr>responses_per_second = rps, nxdomains_per_second = nps, errors_per_second = eps\<rparr>"

text \<open>
  Modelled from the spec: \<^verbatim>\<open>RRLRate::getRate\<close> (\<^verbatim>\<open>rrl_rate.h\<close> is missing), "\<open>rate(category)\<close>
  returns responses-per-second".
\<close>

fun getRate :: "RRLRate \<Rightarrow> ResponseType \<Rightarrow> int" where
  "getRate r RESPONSE_QUERY = responses_per_second r"
| "getRate r RESPONSE_NXDOMAIN = nxdomains_per_second r"
| "getRate r RESPONSE_ERROR = errors_per_second r"

text \<open>
  The operations of the absent classes that \<^verbatim>\<open>rrl.cc\<close> calls, and \<^verbatim>\<open>boost::hash_combine\<close>.
  \<open>getEntry\<close> and \<open>updateBalance\<close> work on the table and the timestamp bases the limiter
  owns and return them as they leave them; \<open>getEntry\<close> gives \<open>None\<close> when it does not
  return, and \<open>Some (None, _, _)\<close> when it returns a null pointer.
\<close>

record ('key, 'tbl, 'bases, 'ent) collaborators =
  new_RRLTable :: "size_t \<Rightarrow> 'tbl"
  expandEntries :: "int \<Rightarrow> 'tbl \<Rightarrow> 'tbl"
  expand :: "time_t \<Rightarrow> 'tbl \<Rightarrow> 'tbl"
  tableEntryCount :: "'tbl \<Rightarrow> nat"
  new_TimestampBases :: "time_t \<Rightarrow> 'bases"
  new_RRLKey :: "IOEndpoint \<Rightarrow> RRType \<Rightarrow> LabelSequence option \<Rightarrow> RRClass \<Rightarrow>
                 ResponseType \<Rightarrow> uint8_t list \<Rightarrow> uint8_t list \<Rightarrow> uint32_t \<Rightarrow> 'key"
  getEntry :: "'key \<Rightarrow> 'bases \<Rightarrow> RRLRate \<Rightarrow> time_t \<Rightarrow> int \<Rightarrow> 'tbl \<Rightarrow>
               ('ent option \<times> 'tbl \<times> 'bases) option"
  updateBalance :: "'ent \<Rightarrow> 'bases \<Rightarrow> RRLRate \<Rightarrow> int \<Rightarrow> nat \<Rightarrow> time_t \<Rightarrow> int \<Rightarrow> 'tbl \<Rightarrow>
                    Result \<times> 'tbl \<times> 'bases"
  hash_combine :: "size_t \<Rightarrow> size_t \<Rightarrow> size_t"

subsection \<open>The limiter\<close>

text \<open>
  \<^verbatim>\<open>getHashSeed\<close>; the process id is an input.
\<close>

definition getHashSeed ::
  "('key, 'tbl, 'bases, 'ent) collaborators \<Rightarrow> time_t \<Rightarrow> int \<Rightarrow> uint32_t" where
  "getHashSeed deps now pid =
     (let hash_val = 0;
          hash_val = hash_combine deps hash_val (word_of_int now);
          hash_val = hash_combine deps hash_val (word_of_int pid)
      in ucast hash_val)"

text \<open>
  \<^verbatim>\<open>struct ResponseLimiterImpl\<close>; the member \<^verbatim>\<open>table_\<close> is \<open>impl_table\<close> here, and so
  on (the source reads them as \<^verbatim>\<open>impl_->table_\<close>). The name pool \<^verbatim>\<open>log_names_\<close> is left
  out: its only use is inside the \<^verbatim>\<open>#if 0\<close> block of \<^verbatim>\<open>check\<close>.
\<close>

record ('tbl, 'bases) ResponseLimiterImpl =
  impl_table :: 'tbl
  impl_rates :: RRLRate
  impl_window :: int
  impl_slip :: int
  impl_ts_bases :: 'bases
  impl_log_only :: bool
  impl_ipv4_prefixlen :: int
  impl_ipv4_mask :: "uint8_t list"
  impl_ipv6_prefixlen :: int
  impl_ipv6_mask :: "uint8_t list"
  impl_hash_seed :: uint32_t

datatype exn = InvalidParameter string

text \<open>
  What a call does: it returns, throws, aborts on a failed assertion, or never returns.
\<close>

datatype 'a outcome = Returns 'a | Throws exn | Aborts | Diverges

text \<open>
  The constructor of \<^verbatim>\<open>ResponseLimiterImpl\<close>: the member initialisers, then the body in
  its order. \<open>min_table_size\<close> is an \<^verbatim>\<open>int\<close> here, and the comparison with the
  \<^verbatim>\<open>size_t\<close> \<open>max_table_size\<close> converts it to \<^verbatim>\<open>size_t\<close>. The numbers that the source
  appends to the messages are left out.
\<close>

definition new_ResponseLimiterImpl ::
  "('key, 'tbl, 'bases, 'ent) collaborators \<Rightarrow> size_t \<Rightarrow> int \<Rightarrow> int \<Rightarrow> int \<Rightarrow> int \<Rightarrow>
   int \<Rightarrow> int \<Rightarrow> int \<Rightarrow> int \<Rightarrow> bool \<Rightarrow> time_t \<Rightarrow> int \<Rightarrow>
   ('tbl, 'bases) ResponseLimiterImpl outcome" where
  "new_ResponseLimiterImpl deps max_table_size min_table_size responses_per_sec
       nxdomains_per_sec errors_per_sec window slip ipv4_prefixlen ipv6_prefixlen
       log_only now pid =
     (let table = new_RRLTable deps max_table_size;
          rates = new_RRLRate responses_per_sec nxdomains_per_sec errors_per_sec;
          bases = new_TimestampBases deps now;
          seed = getHashSeed deps now pid
      in
      if ipv4_prefixlen < 0 \<or> ipv4_prefixlen > 32
      then Throws (InvalidParameter ''bad IPv4 prefix'')
      else if ipv6_prefixlen < 0 \<or> ipv6_prefixlen > 128
      then Throws (InvalidParameter ''bad IPv6 prefix'')
      else
        case setMask 4 ipv4_prefixlen of
          None \<Rightarrow> Aborts
        | Some mask4 \<Rightarrow>
            (case setMask 16 ipv6_prefixlen of
               None \<Rightarrow> Aborts
             | Some mask6 \<Rightarrow>
                 if max_table_size < size_t_of_int min_table_size
                 then Throws (InvalidParameter
                        ''max-table-size must not be smaller than min-table-size'')
                 else Returns
                   \<lparr>impl_table = expand deps now (expandEntries deps min_table_size table),
                    impl_rates = rates, impl_window = window, impl_slip = slip,
                    impl_ts_bases = bases,
                    impl_log_only = log_only,
                    impl_ipv4_prefixlen = ipv4_prefixlen, impl_ipv4_mask = mask4,
                    impl_ipv6_prefixlen = ipv6_prefixlen, impl_ipv6_mask = mask6,
                    impl_hash_seed = seed\<rparr>))"

text \<open>
  The public constructor \<^verbatim>\<open>ResponseLimiter::ResponseLimiter\<close> takes \<open>min_table_size\<close>
  as \<^verbatim>\<open>size_t\<close> and hands it to the constructor above, whose parameter is an \<^verbatim>\<open>int\<close>.
\<close>

definition new_ResponseLimiter ::
  "('key, 'tbl, 'bases, 'ent) collaborators \<Rightarrow> size_t \<Rightarrow> size_t \<Rightarrow> int \<Rightarrow> int \<Rightarrow> int \<Rightarrow>
   int \<Rightarrow> int \<Rightarrow> int \<Rightarrow> int \<Rightarrow> bool \<Rightarrow> time_t \<Rightarrow> int \<Rightarrow>
   ('tbl, 'bases) ResponseLimiterImpl outcome" where
  "new_ResponseLimiter deps max_table_size min_table_size responses_per_sec
       nxdomains_per_sec errors_per_sec window slip ipv4_prefixlen ipv6_prefixlen
       log_only now pid =
     new_ResponseLimiterImpl deps max_table_size (int_of_size_t min_table_size)
       responses_per_sec nxdomains_per_sec errors_per_sec window slip
       ipv4_prefixlen ipv6_prefixlen log_only now pid"

subsection \<open>Accessors\<close>

definition getResponseRate :: "('tbl, 'bases) ResponseLimiterImpl \<Rightarrow> int" where
  "getResponseRate impl = getRate (impl_rates impl) RESPONSE_QUERY"

definition getNXDOMAINRate :: "('tbl, 'bases) ResponseLimiterImpl \<Rightarrow> int" where
  "getNXDOMAINRate impl = getRate (impl_rates impl) RESPONSE_NXDOMAIN"

definition getErrorRate :: "('tbl, 'bases) ResponseLimiterImpl \<Rightarrow> int" where
  "getErrorRate impl = getRate (impl_rates impl) RESPONSE_ERROR"

definition getEntryCount ::
  "('key, 'tbl, 'bases, 'ent) collaborators \<Rightarrow> ('tbl, 'bases) ResponseLimiterImpl \<Rightarrow> nat" where
  "getEntryCount deps impl = tableEntryCount deps (impl_table impl)"

definition getWindow :: "('tbl, 'bases) ResponseLimiterImpl \<Rightarrow> int" where
  "getWindow impl = impl_window impl"

definition getSlip :: "('tbl, 'bases) ResponseLimiterImpl \<Rightarrow> int" where
  "getSlip impl = impl_slip impl"

definition isLogOnly :: "('tbl, 'bases) ResponseLimiterImpl \<Rightarrow> bool" where
  "isLogOnly impl = impl_log_only impl"

definition getIPv4Mask :: "('tbl, 'bases) ResponseLimiterImpl \<Rightarrow> uint8_t list" where
  "getIPv4Mask impl = impl_ipv4_mask impl"

definition getIPv6Mask :: "('tbl, 'bases) ResponseLimiterImpl \<Rightarrow> uint8_t list" where
  "getIPv6Mask impl = impl_ipv6_mask impl"

subsection \<open>convertRcode and check\<close>

definition convertRcode :: "Rcode \<Rightarrow> ResponseType" where
  "convertRcode rcode =
     (if rcode = Rcode_NOERROR then RESPONSE_QUERY
      else if rcode = Rcode_NXDOMAIN then RESPONSE_NXDOMAIN
      else RESPONSE_ERROR)"

text \<open>
  \<^verbatim>\<open>ResponseLimiter::check\<close>. The two \<^verbatim>\<open>#if 0\<close> blocks (\<^verbatim>\<open>stopLog\<close> before the lookup,
  \<^verbatim>\<open>dumpLog\<close> and \<^verbatim>\<open>startLog\<close> after a verdict other than \<^verbatim>\<open>RRL_OK\<close>) are not compiled,
  and the parameter \<^verbatim>\<open>log_msg\<close> has no name in the source: the buffer comes back as it
  was passed. The result is the verdict, the limiter as the call leaves it, and the buffer.
\<close>

definition check ::
  "('key, 'tbl, 'bases, 'ent) collaborators \<Rightarrow> ('tbl, 'bases) ResponseLimiterImpl \<Rightarrow>
   IOEndpoint \<Rightarrow> bool \<Rightarrow> RRClass \<Rightarrow> RRType \<Rightarrow> LabelSequence option \<Rightarrow> Rcode \<Rightarrow> time_t \<Rightarrow>
   string \<Rightarrow> (Result \<times> ('tbl, 'bases) ResponseLimiterImpl \<times> string) outcome" where
  "check deps impl client_addr is_tcp qclass qtype qname rcode now log_msg =
     (if is_tcp then Returns (RRL_OK, impl, log_msg)
      else
        let resp_type = convertRcode rcode in
        case getEntry deps
               (new_RRLKey deps client_addr qtype qname qclass resp_type
                  (impl_ipv4_mask impl) (impl_ipv6_mask impl) (impl_hash_seed impl))
               (impl_ts_bases impl) (impl_rates impl) now (impl_window impl)
               (impl_table impl) of
          None \<Rightarrow> Diverges
        | Some (None, table1, bases1) \<Rightarrow> Aborts
        | Some (Some entry, table1, bases1) \<Rightarrow>
            (case updateBalance deps entry bases1 (impl_rates impl) (impl_slip impl) 0 now
                    (impl_window impl) table1 of
               (result, table2, bases2) \<Rightarrow>
                 let impl2 = impl\<lparr>impl_table := table2, impl_ts_bases := bases2\<rparr> in
                 if result = RRL_OK then Returns (RRL_OK, impl2, log_msg)
                 else Returns (result, impl2, log_msg)))"

text \<open>
  The server calls \<^verbatim>\<open>check\<close> once for each response. A sequence of calls runs on the
  limiter each call leaves behind and stops where a call does not return. The result
  lists, for each call, the verdict and the log-message buffer as the call left it.
\<close>

datatype call =
  Call (call_addr: IOEndpoint) (call_is_tcp: bool) (call_qclass: RRClass)
       (call_qtype: RRType) (call_qname: "LabelSequence option") (call_rcode: Rcode)
       (call_now: time_t) (call_log_msg: string)

fun check_all ::
  "('key, 'tbl, 'bases, 'ent) collaborators \<Rightarrow> ('tbl, 'bases) ResponseLimiterImpl \<Rightarrow>
   call list \<Rightarrow> ((Result \<times> string) list \<times> ('tbl, 'bases) ResponseLimiterImpl) outcome" where
  "check_all deps impl [] = Returns ([], impl)"
| "check_all deps impl (c # cs) =
     (case check deps impl (call_addr c) (call_is_tcp c) (call_qclass c) (call_qtype c)
             (call_qname c) (call_rcode c) (call_now c) (call_log_msg c) of
        Returns (v, impl1, log_msg) \<Rightarrow>
          (case check_all deps impl1 cs of
             Returns (vs, impl2) \<Rightarrow> Returns ((v, log_msg) # vs, impl2)
           | Throws e \<Rightarrow> Throws e
           | Aborts \<Rightarrow> Aborts
           | Diverges \<Rightarrow> Diverges)
      | Throws e \<Rightarrow> Throws e
      | Aborts \<Rightarrow> Aborts
      | Diverges \<Rightarrow> Diverges)"

text \<open>
  A limiter is constructed and then serves calls; nothing is served when the constructor
  does not return.
\<close>

fun serve ::
  "('key, 'tbl, 'bases, 'ent) collaborators \<Rightarrow> ('tbl, 'bases) ResponseLimiterImpl outcome \<Rightarrow>
   call list \<Rightarrow> ((Result \<times> string) list \<times> ('tbl, 'bases) ResponseLimiterImpl) outcome" where
  "serve deps (Returns impl) calls = check_all deps impl calls"
| "serve deps (Throws e) calls = Throws e"
| "serve deps Aborts calls = Aborts"
| "serve deps Diverges calls = Diverges"

fun answers :: "('a \<times> 'b) outcome \<Rightarrow> 'a option" where
  "answers (Returns (vs, impl)) = Some vs"
| "answers (Throws e) = None"
| "answers Aborts = None"
| "answers Diverges = None"

fun limiter_after :: "('a \<times> 'b) outcome \<Rightarrow> 'b option" where
  "limiter_after (Returns (vs, impl)) = Some impl"
| "limiter_after (Throws e) = None"
| "limiter_after Aborts = None"
| "limiter_after Diverges = None"

section \<open>The collaborators, from the specification\<close>

text \<open>
  The files of the key, the timestamp bases, the entry and the table are not among the
  sources. The definitions of this section follow sections 3 and 4.1 to 4.5 of the
  specification. They are used where a statement is about the table itself, and to run
  \<open>check\<close> on concrete calls.
\<close>

subsection \<open>Key\<close>

text \<open>
  Modelled from the spec: the masking of \<^verbatim>\<open>RRLKey\<close> (\<^verbatim>\<open>rrl_key.cc\<close> is missing). "Mask the
  endpoint address with the configured IPv4/IPv6 mask": byte by byte.
\<close>

definition maskAddress :: "uint8_t list \<Rightarrow> uint8_t list \<Rightarrow> uint8_t list" where
  "maskAddress addr netmask = map (\<lambda>(a, m). a AND m) (zip addr netmask)"

text \<open>
  Modelled from the spec: the canonical form of a query name (\<^verbatim>\<open>rrl_key.cc\<close> is missing),
  "canonicalized to lowercase".
\<close>

definition lowercase :: "char \<Rightarrow> char" where
  "lowercase c =
     (let n = (of_char c :: nat) in if 65 \<le> n \<and> n \<le> 90 then char_of (n + 32) else c)"

text \<open>
  Modelled from the spec: \<^verbatim>\<open>RRLKey\<close> (\<^verbatim>\<open>rrl_key.h\<close> and \<^verbatim>\<open>rrl_key.cc\<close> are missing). The key
  carries the masked address with its family, the response category, the class, the type
  and the name; the name is left out for the category \<open>Error\<close>. Equality is equality of
  the canonical form. The 32-bit hash of the key only selects the chain that a lookup
  walks and the lookup compares full keys, so the key of the model has no hash and the
  seed is not used.
\<close>

record RRLKey =
  key_family :: AddrFamily
  key_addr :: "uint8_t list"
  key_rtype :: ResponseType
  key_qclass :: RRClass
  key_qtype :: RRType
  key_qname :: "LabelSequence option"

text \<open>
  Modelled from the spec: the constructor of \<^verbatim>\<open>RRLKey\<close> (\<^verbatim>\<open>rrl_key.cc\<close> is missing), with
  the arguments \<^verbatim>\<open>check\<close> passes: it masks the address with the mask of its family,
  lowercases the name and leaves the name out for the category \<open>Error\<close>.
\<close>

definition RRLKey_new ::
  "IOEndpoint \<Rightarrow> RRType \<Rightarrow> LabelSequence option \<Rightarrow> RRClass \<Rightarrow> ResponseType \<Rightarrow>
   uint8_t list \<Rightarrow> uint8_t list \<Rightarrow> uint32_t \<Rightarrow> RRLKey" where
  "RRLKey_new client_addr qtype qname qclass resp_type ipv4_mask ipv6_mask hash_seed =
     \<lparr>key_family = getFamily client_addr,
      key_addr = maskAddress (getAddress client_addr)
                   (case getFamily client_addr of
                      AF_INET \<Rightarrow> ipv4_mask
                    | AF_INET6 \<Rightarrow> ipv6_mask),
      key_rtype = resp_type,
      key_qclass = qclass,
      key_qtype = qtype,
      key_qname = (if resp_type = RESPONSE_ERROR then None
                   else map_option (map lowercase) qname)\<rparr>"

subsection \<open>Timestamp bases\<close>

text \<open>
  Modelled from the spec: the largest offset an entry can store
  (\<^verbatim>\<open>rrl_timestamps.h\<close> is missing); an entry has a "12-bit offset".
\<close>

definition MAX_OFFSET :: int where
  "MAX_OFFSET = 4095"

text \<open>
  Modelled from the spec: \<^verbatim>\<open>RRLEntry::TimestampBases\<close> (\<^verbatim>\<open>rrl_timestamps.h\<close> is missing):
  an "ordered sequence of up to 4 \<open>(base_second, id)\<close> pairs" with ids in \<open>[0, 3]\<close>, here
  oldest first, and a "monotonic epoch counter per id". The pool starts with one base at
  the time of construction.
\<close>

record TimestampBases =
  tb_bases :: "(time_t \<times> nat) list"
  tb_epochs :: "nat list"

text \<open>
  Modelled from the spec: the constructor of \<^verbatim>\<open>TimestampBases\<close> (\<^verbatim>\<open>rrl_timestamps.h\<close> is
  missing): one base, at the time of construction, in slot 0.
\<close>

definition TimestampBases_new :: "time_t \<Rightarrow> TimestampBases" where
  "TimestampBases_new now = \<lparr>tb_bases = [(now, 0)], tb_epochs = [1, 0, 0, 0]\<rparr>"

text \<open>
  Modelled from the spec: \<open>current_base(now)\<close>. "Return a base within
  \<open>[now - MAX_OFFSET, now]\<close>. If none exists, allocate a new slot, bumping its per-slot
  epoch. If all four slots are occupied, evict the oldest." The table is told of a
  recycled id but "walks entries lazily (next access)", so nothing else changes here.
\<close>

definition getCurrentBase :: "time_t \<Rightarrow> TimestampBases \<Rightarrow> (time_t \<times> nat) \<times> TimestampBases" where
  "getCurrentBase now tb =
     (case find (\<lambda>(b, i). now - MAX_OFFSET \<le> b \<and> b \<le> now) (rev (tb_bases tb)) of
        Some base \<Rightarrow> (base, tb)
      | None \<Rightarrow>
          let kept = (if length (tb_bases tb) < 4 then tb_bases tb else tl (tb_bases tb));
              i = (case filter (\<lambda>i. i \<notin> set (map snd kept)) [0, 1, 2, 3] of
                     [] \<Rightarrow> 0
                   | i # _ \<Rightarrow> i)
          in ((now, i),
              \<lparr>tb_bases = kept @ [(now, i)],
               tb_epochs = (tb_epochs tb)[i := Suc (tb_epochs tb ! i)]\<rparr>))"

subsection \<open>Entry\<close>

text \<open>
  Modelled from the spec: \<^verbatim>\<open>RRLEntry\<close> (\<^verbatim>\<open>rrl_entry.h\<close> and \<^verbatim>\<open>rrl_entry.cc\<close> are missing):
  the key, the base id and the epoch of that id, the offset of the last use, the balance
  \<open>responses\<close>, the flags \<open>logging\<close> and \<open>log_only_applied\<close> and the counter of
  penalized responses in a row. The links of the LRU and of the hash chain are the
  position of the entry in the list of the table.
\<close>

record RRLEntry =
  entry_key :: RRLKey
  entry_base_id :: nat
  entry_epoch :: nat
  entry_last_used_offset :: int
  entry_responses :: int
  entry_logging :: bool
  entry_log_only_applied :: bool
  entry_slip_cnt :: nat

text \<open>
  Modelled from the spec: \<open>offset(entry, now)\<close>, \<open>None\<close> for \<open>STALE\<close>. "Compute
  \<open>now - base_second(entry.base_id)\<close>; if the entry's epoch no longer matches that base
  id's current epoch, return \<open>STALE\<close>; if the offset exceeds \<open>MAX_OFFSET\<close> return
  \<open>STALE\<close>."
\<close>

definition entry_base :: "TimestampBases \<Rightarrow> RRLEntry \<Rightarrow> time_t option" where
  "entry_base tb e =
     (case find (\<lambda>(b, i). i = entry_base_id e) (tb_bases tb) of
        None \<Rightarrow> None
      | Some (b, i) \<Rightarrow>
          if entry_base_id e < length (tb_epochs tb)
             \<and> tb_epochs tb ! entry_base_id e = entry_epoch e
          then Some b else None)"

text \<open>
  Modelled from the spec: the offset itself (\<^verbatim>\<open>rrl_entry.cc\<close> is missing), \<open>STALE\<close> beyond
  \<open>MAX_OFFSET\<close>.
\<close>

definition entry_offset :: "TimestampBases \<Rightarrow> RRLEntry \<Rightarrow> time_t \<Rightarrow> int option" where
  "entry_offset tb e now =
     (case entry_base tb e of
        None \<Rightarrow> None
      | Some b \<Rightarrow> if now - b > MAX_OFFSET then None else Some (now - b))"

text \<open>
  Modelled from the spec: how \<open>get_entry\<close> initialises an entry. "Copy the key, set
  \<open>responses = rate(category)\<close>, \<open>last_used_offset = 0\<close>, allocate a base id."
\<close>

definition RRLEntry_new ::
  "RRLKey \<Rightarrow> TimestampBases \<Rightarrow> RRLRate \<Rightarrow> time_t \<Rightarrow> RRLEntry \<times> TimestampBases" where
  "RRLEntry_new key bases rates now =
     (case getCurrentBase now bases of
        ((b, i), bases1) \<Rightarrow>
          (\<lparr>entry_key = key, entry_base_id = i, entry_epoch = tb_epochs bases1 ! i,
            entry_last_used_offset = 0, entry_responses = getRate rates (key_rtype key),
            entry_logging = False, entry_log_only_applied = False,
            entry_slip_cnt = 0\<rparr>,
           bases1))"

text \<open>
  Modelled from the spec: \<^verbatim>\<open>RRLEntry::updateBalance\<close> (\<^verbatim>\<open>rrl_entry.cc\<close> is missing), section
  4.4, steps 1 to 5, after the rule of section 4.3 that "a zero configured rate disables
  limiting for that category (always \<open>OK\<close>)". The counter of penalized responses "resets
  on any \<open>OK\<close> verdict"; the \<open>slip\<close>-th penalized response in a row, counted modulo
  \<open>slip\<close>, is \<open>SLIP\<close>.
\<close>

definition RRLEntry_updateBalance ::
  "RRLEntry \<Rightarrow> TimestampBases \<Rightarrow> RRLRate \<Rightarrow> int \<Rightarrow> nat \<Rightarrow> time_t \<Rightarrow> int \<Rightarrow>
   Result \<times> RRLEntry \<times> TimestampBases" where
  "RRLEntry_updateBalance e bases rates slip qname_size now window =
     (let rate = getRate rates (key_rtype (entry_key e)) in
      if rate = 0 then (RRL_OK, e, bases)
      else
        case entry_offset bases e now of
          None \<Rightarrow>
            (case getCurrentBase now bases of
               ((b, i), bases1) \<Rightarrow>
                 (RRL_OK,
                  e\<lparr>entry_responses := rate, entry_base_id := i,
                    entry_epoch := tb_epochs bases1 ! i, entry_last_used_offset := 0,
                    entry_logging := False, entry_log_only_applied := False,
                    entry_slip_cnt := 0\<rparr>,
                  bases1))
        | Some now_offset \<Rightarrow>
            let elapsed = max 0 (now_offset - entry_last_used_offset e);
                regenerated = min rate (entry_responses e + rate * elapsed);
                charged = regenerated - 1
            in
            if charged \<ge> 0
            then (RRL_OK,
                  e\<lparr>entry_last_used_offset := now_offset, entry_responses := charged,
                    entry_slip_cnt := 0\<rparr>,
                  bases)
            else
              let clamped = (if charged < - window * rate then - window * rate else charged);
                  cnt = Suc (entry_slip_cnt e)
              in ((if slip > 0 \<and> int cnt mod slip = 0 then RRL_SLIP else RRL_DROP),
                  e\<lparr>entry_last_used_offset := now_offset, entry_responses := clamped,
                    entry_slip_cnt := cnt\<rparr>,
                  bases))"

subsection \<open>Table\<close>

text \<open>
  Modelled from the spec: \<^verbatim>\<open>RRLTable\<close> (\<^verbatim>\<open>rrl_table.h\<close> and \<^verbatim>\<open>rrl_table.cc\<close> are missing):
  the current capacity, the maximum capacity and the live entries in LRU order, head
  first. The free list holds the slots that no live entry occupies. The hash chains are
  not represented: a lookup compares full keys, so it finds the entry the chain would
  hold.
\<close>

record RRLTable =
  table_capacity :: nat
  table_max_capacity :: nat
  table_lru :: "RRLEntry list"

text \<open>
  Modelled from the spec: the constructor of \<^verbatim>\<open>RRLTable\<close> (\<^verbatim>\<open>rrl_table.cc\<close> is missing):
  no slot yet, \<open>max_table_size\<close> as the maximum capacity.
\<close>

definition RRLTable_new :: "size_t \<Rightarrow> RRLTable" where
  "RRLTable_new max_table_size =
     \<lparr>table_capacity = 0, table_max_capacity = unat max_table_size, table_lru = []\<rparr>"

text \<open>
  Modelled from the spec: \<^verbatim>\<open>RRLTable::expandEntries\<close>. \<open>min_table_size\<close> is the "initial
  capacity (pre-allocated)" and \<open>max_table_size\<close> the "hard cap".
\<close>

definition RRLTable_expandEntries :: "int \<Rightarrow> RRLTable \<Rightarrow> RRLTable" where
  "RRLTable_expandEntries count_to_add t =
     t\<lparr>table_capacity := min (table_max_capacity t) (table_capacity t + nat count_to_add)\<rparr>"

text \<open>
  Modelled from the spec: \<^verbatim>\<open>RRLTable::expand\<close>, which sets up the array of chain heads;
  the model has none.
\<close>

definition RRLTable_expand :: "time_t \<Rightarrow> RRLTable \<Rightarrow> RRLTable" where
  "RRLTable_expand now t = t"

text \<open>
  Modelled from the spec: \<^verbatim>\<open>RRLTable::getEntryCount\<close>, the "current entry count": the
  live entries.
\<close>

definition RRLTable_getEntryCount :: "RRLTable \<Rightarrow> nat" where
  "RRLTable_getEntryCount t = length (table_lru t)"

text \<open>
  Modelled from the spec: the growth step of \<open>get_entry\<close> (\<^verbatim>\<open>rrl_table.cc\<close> is missing):
  "double the bucket count (up to \<open>max_capacity\<close>)". The bucket count is a power of two,
  so it is at least one: a table that has no slot yet is doubled from one.
\<close>

definition grow :: "RRLTable \<Rightarrow> RRLTable" where
  "grow t =
     t\<lparr>table_capacity := min (table_max_capacity t) (2 * max 1 (table_capacity t))\<rparr>"

text \<open>
  Modelled from the spec: the wall-clock second of the last use of an entry,
  \<open>last_used_offset + base_second(base_id)\<close>, while the base of the entry is valid.
\<close>

definition last_used :: "TimestampBases \<Rightarrow> RRLEntry \<Rightarrow> time_t option" where
  "last_used bases e = map_option (\<lambda>b. b + entry_last_used_offset e) (entry_base bases e)"

text \<open>
  Modelled from the spec: the bound of the backwards scan, "\<open>SCAN_LIMIT\<close>, e.g., 64".
\<close>

definition SCAN_LIMIT :: nat where
  "SCAN_LIMIT = 64"

text \<open>
  Modelled from the spec: the entry to steal. Scan backwards from the LRU tail over at
  most \<open>SCAN_LIMIT\<close> entries "to skip entries currently marked \<open>logging\<close>. If every
  candidate in the scan window is protected, take the oldest anyway."
\<close>

definition steal_position :: "RRLEntry list \<Rightarrow> nat" where
  "steal_position lru =
     (let n = length lru in
      case filter (\<lambda>i. \<not> entry_logging (lru ! i)) (rev [n - min n SCAN_LIMIT ..< n]) of
        [] \<Rightarrow> n - 1
      | i # _ \<Rightarrow> i)"

text \<open>
  Modelled from the spec: unlinking the entry at a position from the LRU
  (\<^verbatim>\<open>rrl_table.cc\<close> is missing).
\<close>

definition unlink :: "nat \<Rightarrow> RRLTable \<Rightarrow> RRLTable" where
  "unlink i t = t\<lparr>table_lru := take i (table_lru t) @ drop (Suc i) (table_lru t)\<rparr>"

text \<open>
  Modelled from the spec: steps 3 and 4 of \<open>get_entry\<close>: initialise the entry and link it
  at the LRU head. The result is the pointer to it (its position, 0), the table and the
  bases.
\<close>

definition link_new ::
  "RRLKey \<Rightarrow> TimestampBases \<Rightarrow> RRLRate \<Rightarrow> time_t \<Rightarrow> RRLTable \<Rightarrow>
   nat option \<times> RRLTable \<times> TimestampBases" where
  "link_new key bases rates now t =
     (case RRLEntry_new key bases rates now of
        (e, bases1) \<Rightarrow> (Some 0, t\<lparr>table_lru := e # table_lru t\<rparr>, bases1))"

text \<open>
  Modelled from the spec: step 1 of \<open>get_entry\<close> (\<^verbatim>\<open>rrl_table.cc\<close> is missing): the position
  of the live entry with the given key, if there is one.
\<close>

definition find_entry :: "RRLKey \<Rightarrow> RRLEntry list \<Rightarrow> nat option" where
  "find_entry key lru =
     (case filter (\<lambda>i. entry_key (lru ! i) = key) [0 ..< length lru] of
        [] \<Rightarrow> None
      | i # _ \<Rightarrow> Some i)"

text \<open>
  Modelled from the spec: \<^verbatim>\<open>RRLTable::getEntry\<close> (\<^verbatim>\<open>rrl_table.cc\<close> is missing), section 4.5.
  On a hit the entry moves to the LRU head. On a miss: pop the free list if it is not
  empty; else evict the LRU tail if its last use is older than \<open>now - window\<close>; else, if
  \<open>capacity < max capacity\<close>, grow the table and retry; else steal. The entry obtained is
  initialised and linked at the LRU head. On every path an entry is located, created or
  recycled, as the specification says of \<open>get_entry\<close>; where no live entry is left to
  recycle the entry is a new one. The retry is the recursion, and it ends because growing
  below the maximum adds a slot.
\<close>

function RRLTable_getEntry ::
  "RRLKey \<Rightarrow> TimestampBases \<Rightarrow> RRLRate \<Rightarrow> time_t \<Rightarrow> int \<Rightarrow> RRLTable \<Rightarrow>
   nat option \<times> RRLTable \<times> TimestampBases" where
  "RRLTable_getEntry key bases rates now window t =
     (case find_entry key (table_lru t) of
        Some i \<Rightarrow>
          (Some 0, (unlink i t)\<lparr>table_lru := table_lru t ! i # table_lru (unlink i t)\<rparr>,
           bases)
      | None \<Rightarrow>
          if length (table_lru t) < table_capacity t
          then link_new key bases rates now t
          else if table_lru t \<noteq> []
                  \<and> (case last_used bases (last (table_lru t)) of
                        None \<Rightarrow> True
                      | Some used \<Rightarrow> used < now - window)
          then link_new key bases rates now (unlink (length (table_lru t) - 1) t)
          else if table_capacity t < table_max_capacity t
          then RRLTable_getEntry key bases rates now window (grow t)
          else link_new key bases rates now (unlink (steal_position (table_lru t)) t))"
  by pat_completeness auto
termination
  by (relation "measure (\<lambda>(key, bases, rates, now, window, t).
                  table_max_capacity t - table_capacity t)")
     (auto simp: grow_def)

text \<open>
  Modelled from the spec: the call \<^verbatim>\<open>table_.getEntry(...)\<close> of \<^verbatim>\<open>check\<close> on this table
  (\<^verbatim>\<open>rrl_table.cc\<close> is missing): it returns, with what \<open>get_entry\<close> gives.
\<close>

definition getEntry_of_table ::
  "RRLKey \<Rightarrow> TimestampBases \<Rightarrow> RRLRate \<Rightarrow> time_t \<Rightarrow> int \<Rightarrow> RRLTable \<Rightarrow>
   (nat option \<times> RRLTable \<times> TimestampBases) option" where
  "getEntry_of_table key bases rates now window t =
     Some (RRLTable_getEntry key bases rates now window t)"

text \<open>
  Modelled from the spec: \<^verbatim>\<open>entry->updateBalance(...)\<close> through the pointer that
  \<open>getEntry\<close> returned (\<^verbatim>\<open>rrl_entry.cc\<close> is missing): the entry at that position is
  updated in place. \<open>check\<close> never passes another pointer; for one
  that points at no entry nothing is done.
\<close>

definition updateBalance_at ::
  "nat \<Rightarrow> TimestampBases \<Rightarrow> RRLRate \<Rightarrow> int \<Rightarrow> nat \<Rightarrow> time_t \<Rightarrow> int \<Rightarrow> RRLTable \<Rightarrow>
   Result \<times> RRLTable \<times> TimestampBases" where
  "updateBalance_at entry bases rates slip qname_size now window t =
     (if entry < length (table_lru t)
      then
        case RRLEntry_updateBalance (table_lru t ! entry) bases rates slip qname_size now
               window of
          (result, e, bases1) \<Rightarrow> (result, t\<lparr>table_lru := (table_lru t)[entry := e]\<rparr>, bases1)
      else (RRL_OK, t, bases))"

text \<open>
  \<^verbatim>\<open>boost::hash_combine\<close> on \<^verbatim>\<open>size_t\<close>, as Boost defines it for an integer value.
\<close>

definition boost_hash_combine :: "size_t \<Rightarrow> size_t \<Rightarrow> size_t" where
  "boost_hash_combine seed v =
     seed XOR (v + 0x9e3779b9 + push_bit 6 seed + drop_bit 2 seed)"

text \<open>
  The collaborators of the limiter, as the definitions of this section give them.
\<close>

definition rrl_collaborators :: "(RRLKey, RRLTable, TimestampBases, nat) collaborators" where
  "rrl_collaborators =
     \<lparr>new_RRLTable = RRLTable_new,
      expandEntries = RRLTable_expandEntries,
      expand = RRLTable_expand,
      tableEntryCount = RRLTable_getEntryCount,
      new_TimestampBases = TimestampBases_new,
      new_RRLKey = RRLKey_new,
      getEntry = getEntry_of_table,
      updateBalance = updateBalance_at,
      hash_combine = boost_hash_combine\<rparr>"

text \<open>
  The live entries of a limiter that are marked \<open>logging\<close>.
\<close>

definition logging_entries :: "(RRLTable, TimestampBases) ResponseLimiterImpl \<Rightarrow> RRLEntry list" where
  "logging_entries impl = filter entry_logging (table_lru (impl_table impl))"

section \<open>Properties\<close>

declare setMask_loop.simps [simp del]

declare RRLTable_getEntry.simps [simp del]

subsection \<open>The mask that setMask builds\<close>

lemma bit_ff32: "bit (0xff :: 32 word) k \<longleftrightarrow> k < 8"
proof -
  have e: "(0xff :: 32 word) = mask 8" by (simp add: mask_eq_exp_minus_1)
  show ?thesis unfolding e by (auto simp add: bit_mask_iff)
qed

lemma bit_ff8: "j < 8 \<Longrightarrow> bit (0xff :: 8 word) j"
proof -
  have e: "(0xff :: 8 word) = mask 8" by (simp add: mask_eq_exp_minus_1)
  show "j < 8 \<Longrightarrow> bit (0xff :: 8 word) j" unfolding e by (simp add: bit_mask_iff)
qed

lemma last_byte_bit:
  assumes "0 < r" "r \<le> 8" "j < 8"
  shows "bit (ucast (push_bit (nat (8 - r)) (0xff :: 32 word)) :: 8 word) j
         \<longleftrightarrow> nat (8 - r) \<le> j"
proof -
  have "bit (ucast (push_bit (nat (8 - r)) (0xff :: 32 word)) :: 8 word) j
        \<longleftrightarrow> bit (push_bit (nat (8 - r)) (0xff :: 32 word)) j"
    using assms by (simp add: bit_ucast_iff)
  also have "\<dots> \<longleftrightarrow> nat (8 - r) \<le> j \<and> bit (0xff :: 32 word) (j - nat (8 - r))"
    using assms by (simp add: bit_push_bit_iff)
  also have "\<dots> \<longleftrightarrow> nat (8 - r) \<le> j"
    using assms by (auto simp only: bit_ff32)
  finally show ?thesis .
qed

text \<open>The loop appends one byte \<open>0xff\<close> for each 8 bits beyond the last 1 to 8.\<close>

lemma setMask_loop_shape:
  "\<exists>k. setMask_loop buf plen = (buf @ replicate k 0xff, plen - 8 * int k)
       \<and> plen - 8 * int k \<le> 8 \<and> (0 < plen \<longrightarrow> 0 < plen - 8 * int k)
       \<and> (plen \<le> 8 \<longrightarrow> k = 0)"
proof (induction buf plen rule: setMask_loop.induct)
  case (1 buf plen)
  show ?case
  proof (cases "plen > 8")
    case True
    from 1[OF True] obtain k where
      k: "setMask_loop (buf @ [0xff]) (plen - 8)
            = ((buf @ [0xff]) @ replicate k 0xff, plen - 8 - 8 * int k)"
         "plen - 8 - 8 * int k \<le> 8" "0 < plen - 8 \<longrightarrow> 0 < plen - 8 - 8 * int k"
      by blast
    have "setMask_loop buf plen = setMask_loop (buf @ [0xff]) (plen - 8)"
      using True by (subst setMask_loop.simps) simp
    then have "setMask_loop buf plen = (buf @ replicate (Suc k) 0xff, plen - 8 * int (Suc k))"
      using k(1) by (simp add: algebra_simps)
    moreover have "plen - 8 * int (Suc k) \<le> 8" using k(2) by simp
    moreover have "0 < plen - 8 * int (Suc k)" using k(3) True by simp
    ultimately show ?thesis using True by (intro exI[of _ "Suc k"]) simp
  next
    case False
    then have "setMask_loop buf plen = (buf, plen)"
      by (subst setMask_loop.simps) simp
    with False show ?thesis by (intro exI[of _ 0]) simp
  qed
qed

lemma setMask_buf_shape:
  assumes "0 \<le> p"
  shows "\<exists>k r. setMask_buf p =
            replicate k 0xff @
            (if 0 < r then [ucast (push_bit (nat (8 - r)) (0xff :: 32 word))] else [])
          \<and> 0 \<le> r \<and> r \<le> 8 \<and> int k * 8 + r = p \<and> (0 < p \<longrightarrow> 0 < r)"
proof -
  from setMask_loop_shape[of "[]" p] obtain k where
    k: "setMask_loop [] p = (replicate k 0xff, p - 8 * int k)" "p - 8 * int k \<le> 8"
       "0 < p \<longrightarrow> 0 < p - 8 * int k" "p \<le> 8 \<longrightarrow> k = 0"
    by auto
  have "0 \<le> p - 8 * int k" using k(3,4) assms by (cases "p \<le> 8") auto
  then show ?thesis
    using k by (intro exI[of _ k] exI[of _ "p - 8 * int k"]) (simp add: setMask_buf_def)
qed

text \<open>
  For a prefix length between 0 and the number of bits of the mask, both assertions
  hold and the mask has exactly its first \<open>p\<close> bits set.
\<close>

lemma setMask_mask:
  assumes "0 \<le> p" "p \<le> 8 * int n"
  shows "length (setMask_buf p) \<le> n \<and>
         (\<exists>m. setMask n p = Some m \<and> length m = n \<and>
              (\<forall>i < 8 * n. mask_bit m i \<longleftrightarrow> int i < p))"
proof -
  from setMask_buf_shape[OF assms(1)] obtain k r where
    buf: "setMask_buf p =
            replicate k 0xff @
            (if 0 < r then [ucast (push_bit (nat (8 - r)) (0xff :: 32 word))] else [])"
    and r: "0 \<le> r" "r \<le> 8" "int k * 8 + r = p" "0 < p \<longrightarrow> 0 < r"
    by blast
  have len: "length (setMask_buf p) = (if 0 < r then Suc k else k)"
    by (simp add: buf)
  have le: "length (setMask_buf p) \<le> n"
    using len r assms(2) by (auto split: if_splits)
  define m where "m = setMask_buf p @ replicate (n - length (setMask_buf p)) 0"
  have lm: "length m = n" using le by (simp add: m_def)
  have sm: "setMask n p = Some m"
    using le lm by (simp add: setMask_def Let_def m_def)
  have bits: "mask_bit m i \<longleftrightarrow> int i < p" if i: "i < 8 * n" for i
  proof -
    have j: "i mod 8 < 8" by simp
    consider (full) "i div 8 < k" | (part) "i div 8 = k" "0 < r"
      | (pad) "i div 8 \<ge> length (setMask_buf p)"
    proof (cases "0 < r")
      case True
      with len have "length (setMask_buf p) = Suc k" by simp
      then show ?thesis using True that by (cases "i div 8 < k") (force simp: not_less)+
    next
      case False
      with len have "length (setMask_buf p) = k" by simp
      then show ?thesis using that by (cases "i div 8 < k") (force simp: not_less)+
    qed
    then show ?thesis
    proof cases
      case full
      then have "m ! (i div 8) = 0xff"
        by (simp add: m_def buf nth_append)
      moreover have "int i < p" using full r by auto
      moreover have "bit (0xff :: 8 word) (7 - i mod 8)" by (rule bit_ff8) simp
      ultimately show ?thesis by (simp only: mask_bit_def)
    next
      case part
      then have "m ! (i div 8) = ucast (push_bit (nat (8 - r)) (0xff :: 32 word))"
        by (simp add: m_def buf nth_append)
      then have "mask_bit m i \<longleftrightarrow> nat (8 - r) \<le> 7 - i mod 8"
        using last_byte_bit[OF part(2) r(2), of "7 - i mod 8"] by (simp only: mask_bit_def)
      also have "\<dots> \<longleftrightarrow> int (i mod 8) < r" using r j by auto
      also have "\<dots> \<longleftrightarrow> int i < p"
      proof -
        have "int i = int k * 8 + int (i mod 8)" using part(1)
          by (metis div_mult_mod_eq of_nat_add of_nat_mult of_nat_numeral)
        then show ?thesis using r(3) by auto
      qed
      finally show ?thesis .
    next
      case pad
      then have "m ! (i div 8) = 0"
        using i by (simp add: m_def nth_append)
      moreover have "\<not> int i < p"
      proof -
        have "8 * length (setMask_buf p) \<le> i" using pad by auto
        then show ?thesis using len r by (auto split: if_splits)
      qed
      ultimately show ?thesis by (simp add: mask_bit_def)
    qed
  qed
  show ?thesis using le sm lm bits by blast
qed

text \<open>Masking an address keeps a bit exactly where the mask has one.\<close>

lemma mask_bit_maskAddress:
  assumes "length addr = length m" "i < 8 * length m"
  shows "mask_bit (maskAddress addr m) i \<longleftrightarrow> mask_bit addr i \<and> mask_bit m i"
proof -
  have "i div 8 < length m" using assms(2) by auto
  then show ?thesis
    using assms(1) by (simp add: mask_bit_def maskAddress_def bit_and_iff)
qed

subsection \<open>The constructor\<close>

lemma int_of_size_t_small:
  assumes "n < 2 ^ 31"
  shows "int_of_size_t n = uint n"
proof -
  have lt: "uint n < 2 ^ 31"
    using assms by (simp add: word_less_def)
  have "uint (ucast n :: 32 word) = take_bit 32 (uint n)"
    by (simp add: unsigned_ucast_eq)
  also have "\<dots> = uint n"
    using lt by (simp add: take_bit_int_eq_self)
  finally have u: "uint (ucast n :: 32 word) = uint n" .
  have "sint (ucast n :: 32 word) = signed_take_bit 31 (uint (ucast n :: 32 word))"
    by (simp add: sint_uint)
  also have "\<dots> = uint n"
  proof -
    have ge: "- (2 ^ 31) \<le> uint n" by (rule order_trans[of _ 0]) simp_all
    show ?thesis unfolding u by (rule signed_take_bit_int_eq_self[OF ge lt])
  qed
  finally show ?thesis by (simp add: int_of_size_t_def)
qed

lemma size_t_roundtrip:
  assumes "n < 2 ^ 31"
  shows "size_t_of_int (int_of_size_t n) = n"
  by (simp add: int_of_size_t_small[OF assms] size_t_of_int_def)

text \<open>What a constructor that returns has checked and stored.\<close>

lemma new_ResponseLimiterImpl_Returns:
  assumes "new_ResponseLimiterImpl deps mx mn rps nps eps w s p4 p6 lo now pid = Returns impl"
  shows "0 \<le> p4 \<and> p4 \<le> 32 \<and> 0 \<le> p6 \<and> p6 \<le> 128 \<and> \<not> mx < size_t_of_int mn
         \<and> setMask 4 p4 = Some (impl_ipv4_mask impl)
         \<and> setMask 16 p6 = Some (impl_ipv6_mask impl)
         \<and> impl_rates impl = new_RRLRate rps nps eps
         \<and> impl_window impl = w \<and> impl_slip impl = s \<and> impl_log_only impl = lo
         \<and> impl_table impl = expand deps now (expandEntries deps mn (new_RRLTable deps mx))
         \<and> impl_ts_bases impl = new_TimestampBases deps now"
  using assms
  by (auto simp: new_ResponseLimiterImpl_def Let_def split: if_splits option.splits)

text \<open>The constructor returns when the three checks pass.\<close>

lemma new_ResponseLimiterImpl_returns:
  assumes "0 \<le> p4" "p4 \<le> 32" "0 \<le> p6" "p6 \<le> 128" "\<not> mx < size_t_of_int mn"
  shows "\<exists>impl. new_ResponseLimiterImpl deps mx mn rps nps eps w s p4 p6 lo now pid
                  = Returns impl"
proof -
  from setMask_mask[of p4 4] assms obtain m4 where "setMask 4 p4 = Some m4" by auto
  moreover from setMask_mask[of p6 16] assms obtain m6 where "setMask 16 p6 = Some m6" by auto
  ultimately show ?thesis
    using assms by (simp add: new_ResponseLimiterImpl_def Let_def)
qed

text \<open>
  When \<open>min_table_size\<close> fits an \<^verbatim>\<open>int\<close>, the constructor throws exactly for a prefix
  length out of range or \<open>max_table_size < min_table_size\<close>, and returns otherwise.
\<close>

lemma new_ResponseLimiter_throws_iff:
  assumes "mn < 2 ^ 31"
  shows "(\<exists>e. new_ResponseLimiter deps mx mn rps nps eps w s p4 p6 lo now pid = Throws e)
           \<longleftrightarrow> (p4 < 0 \<or> 32 < p4 \<or> p6 < 0 \<or> 128 < p6 \<or> mx < mn)"
    and "(\<exists>impl. new_ResponseLimiter deps mx mn rps nps eps w s p4 p6 lo now pid = Returns impl)
           \<longleftrightarrow> \<not> (p4 < 0 \<or> 32 < p4 \<or> p6 < 0 \<or> 128 < p6 \<or> mx < mn)"
proof -
  let ?c = "new_ResponseLimiter deps mx mn rps nps eps w s p4 p6 lo now pid"
  have rt: "size_t_of_int (int_of_size_t mn) = mn" by (rule size_t_roundtrip[OF assms])
  show "(\<exists>impl. ?c = Returns impl)
           \<longleftrightarrow> \<not> (p4 < 0 \<or> 32 < p4 \<or> p6 < 0 \<or> 128 < p6 \<or> mx < mn)"
  proof
    assume "\<exists>impl. ?c = Returns impl"
    then obtain impl where "?c = Returns impl" ..
    from new_ResponseLimiterImpl_Returns[OF this[unfolded new_ResponseLimiter_def]]
    show "\<not> (p4 < 0 \<or> 32 < p4 \<or> p6 < 0 \<or> 128 < p6 \<or> mx < mn)"
      using rt by auto
  next
    assume "\<not> (p4 < 0 \<or> 32 < p4 \<or> p6 < 0 \<or> 128 < p6 \<or> mx < mn)"
    then show "\<exists>impl. ?c = Returns impl"
      unfolding new_ResponseLimiter_def
      using rt by (intro new_ResponseLimiterImpl_returns) auto
  qed
  moreover have "\<exists>e. ?c = Throws e"
    if "p4 < 0 \<or> 32 < p4 \<or> p6 < 0 \<or> 128 < p6 \<or> mx < mn"
  proof (cases "p4 < 0 \<or> 32 < p4 \<or> p6 < 0 \<or> 128 < p6")
    case True
    then show ?thesis
      by (auto simp: new_ResponseLimiter_def new_ResponseLimiterImpl_def Let_def)
  next
    case False
    with that have lt: "mx < mn" by simp
    from False setMask_mask[of p4 4] obtain m4 where "setMask 4 p4 = Some m4" by auto
    moreover from False setMask_mask[of p6 16] obtain m6 where "setMask 16 p6 = Some m6"
      by auto
    ultimately show ?thesis
      using False lt rt by (simp add: new_ResponseLimiter_def new_ResponseLimiterImpl_def Let_def)
  qed
  ultimately show "(\<exists>e. ?c = Throws e)
           \<longleftrightarrow> (p4 < 0 \<or> 32 < p4 \<or> p6 < 0 \<or> 128 < p6 \<or> mx < mn)"
    by (metis outcome.distinct(1))
qed

subsection \<open>Claims about the constructor and the classification\<close>

text \<open>
  C9. For every prefix length that passes the range checks of the constructor (IPv4 in
  \<open>[0,32]\<close> against the 4-byte mask, IPv6 in \<open>[0,128]\<close> against the 16-byte mask) the
  assertions of \<open>setMask\<close> hold: the buffer built from the prefix length is not longer
  than the mask, after padding it is exactly as long as the mask, and \<open>setMask\<close> yields
  the mask. The constructor therefore never aborts on these assertions, whatever its
  arguments.
\<close>

theorem setMask_assertions_hold:
  "(0 \<le> p4 \<and> p4 \<le> 32 \<longrightarrow>
      length (setMask_buf p4) \<le> 4
      \<and> length (setMask_buf p4 @ replicate (4 - length (setMask_buf p4)) 0) = 4
      \<and> setMask 4 p4 \<noteq> None)
   \<and> (0 \<le> p6 \<and> p6 \<le> 128 \<longrightarrow>
      length (setMask_buf p6) \<le> 16
      \<and> length (setMask_buf p6 @ replicate (16 - length (setMask_buf p6)) 0) = 16
      \<and> setMask 16 p6 \<noteq> None)
   \<and> new_ResponseLimiter deps mx mn rps nps eps w s p4 p6 lo now pid \<noteq> Aborts"
proof -
  have a: "length (setMask_buf p) \<le> n
           \<and> length (setMask_buf p @ replicate (n - length (setMask_buf p)) 0) = n
           \<and> setMask n p \<noteq> None" if "0 \<le> p" "p \<le> 8 * int n" for p n
    using setMask_mask[OF that] by auto
  have "new_ResponseLimiter deps mx mn rps nps eps w s p4 p6 lo now pid \<noteq> Aborts"
  proof (cases "p4 < 0 \<or> 32 < p4 \<or> p6 < 0 \<or> 128 < p6")
    case True
    then show ?thesis
      by (auto simp: new_ResponseLimiter_def new_ResponseLimiterImpl_def Let_def)
  next
    case False
    with a[of p4 4] a[of p6 16] show ?thesis
      by (auto simp: new_ResponseLimiter_def new_ResponseLimiterImpl_def Let_def
               split: if_splits)
  qed
  with a[of p4 4] a[of p6 16] show ?thesis by simp
qed

theorem setMask_assertions_hold_witness:
  "(0::int) \<le> 24 \<and> (24::int) \<le> 32 \<and> (0::int) \<le> 56 \<and> (56::int) \<le> 128
   \<and> length (setMask_buf 24) \<le> 4 \<and> setMask 4 24 \<noteq> None
   \<and> length (setMask_buf 56) \<le> 16 \<and> setMask 16 56 \<noteq> None
   \<and> new_ResponseLimiter rrl_collaborators 1024 64 5 5 5 15 2 24 56 False 1000000 4242
       \<noteq> Aborts"
  using setMask_assertions_hold
          [of 24 56 rrl_collaborators 1024 64 5 5 5 15 2 False 1000000 4242]
  by simp

text \<open>
  C5. For every limiter the constructor returns, with \<open>ipv4_prefixlen = p4\<close> and
  \<open>ipv6_prefixlen = p6\<close>: the stored IPv4 mask has 4 bytes, its first \<open>p4\<close> bits are
  1 and the other \<open>32 - p4\<close> are 0; the stored IPv6 mask has 16 bytes, its first \<open>p6\<close>
  bits are 1 and the other \<open>128 - p6\<close> are 0. So an address masked with the stored mask
  keeps its first \<open>p4\<close> (or \<open>p6\<close>) bits and has 0 in every masked-off bit.
\<close>

theorem stored_masks:
  assumes "new_ResponseLimiter deps mx mn rps nps eps w s p4 p6 lo now pid = Returns impl"
  shows "length (getIPv4Mask impl) = 4
         \<and> (\<forall>i < 32. mask_bit (getIPv4Mask impl) i \<longleftrightarrow> int i < p4)
         \<and> length (getIPv6Mask impl) = 16
         \<and> (\<forall>i < 128. mask_bit (getIPv6Mask impl) i \<longleftrightarrow> int i < p6)
         \<and> (\<forall>addr. length addr = 4 \<longrightarrow>
               (\<forall>i < 32. mask_bit (maskAddress addr (getIPv4Mask impl)) i
                           \<longleftrightarrow> mask_bit addr i \<and> int i < p4))
         \<and> (\<forall>addr. length addr = 16 \<longrightarrow>
               (\<forall>i < 128. mask_bit (maskAddress addr (getIPv6Mask impl)) i
                            \<longleftrightarrow> mask_bit addr i \<and> int i < p6))"
proof -
  note r = new_ResponseLimiterImpl_Returns[OF assms[unfolded new_ResponseLimiter_def]]
  from r setMask_mask[of p4 4] have
    m4: "length (impl_ipv4_mask impl) = 4"
        "\<forall>i < 32. mask_bit (impl_ipv4_mask impl) i \<longleftrightarrow> int i < p4"
    by auto
  from r setMask_mask[of p6 16] have
    m6: "length (impl_ipv6_mask impl) = 16"
        "\<forall>i < 128. mask_bit (impl_ipv6_mask impl) i \<longleftrightarrow> int i < p6"
    by auto
  have "mask_bit (maskAddress addr (impl_ipv4_mask impl)) i \<longleftrightarrow> mask_bit addr i \<and> int i < p4"
    if "length addr = 4" "i < 32" for addr i
    using mask_bit_maskAddress[of addr "impl_ipv4_mask impl" i] that m4 by simp
  moreover
  have "mask_bit (maskAddress addr (impl_ipv6_mask impl)) i \<longleftrightarrow> mask_bit addr i \<and> int i < p6"
    if "length addr = 16" "i < 128" for addr i
    using mask_bit_maskAddress[of addr "impl_ipv6_mask impl" i] that m6 by simp
  ultimately show ?thesis
    using m4 m6 by (simp add: getIPv4Mask_def getIPv6Mask_def)
qed

theorem stored_masks_witness:
  "\<exists>impl. new_ResponseLimiter rrl_collaborators 1024 64 5 5 5 15 2 24 56 False 1000000 4242
            = Returns impl
     \<and> length (getIPv4Mask impl) = 4
     \<and> mask_bit (getIPv4Mask impl) 23 \<and> \<not> mask_bit (getIPv4Mask impl) 24
     \<and> length (getIPv6Mask impl) = 16
     \<and> mask_bit (getIPv6Mask impl) 55 \<and> \<not> mask_bit (getIPv6Mask impl) 56
     \<and> \<not> mask_bit (maskAddress [192, 0, 2, 255] (getIPv4Mask impl)) 31"
proof -
  have "(64 :: size_t) < 2 ^ 31" by simp
  from new_ResponseLimiter_throws_iff(2)[OF this, of rrl_collaborators 1024 5 5 5 15 2 24 56
         False 1000000 4242]
  obtain impl where
    c: "new_ResponseLimiter rrl_collaborators 1024 64 5 5 5 15 2 24 56 False 1000000 4242
          = Returns impl"
    by auto
  have l: "length [192, 0, 2, 255 :: uint8_t] = 4" by simp
  from stored_masks[OF c] l show ?thesis
    using c by (intro exI[of _ impl]) simp
qed

text \<open>
  C3. \<open>convertRcode\<close> is total and puts every rcode in exactly one category: the result
  is \<open>Query\<close> exactly for \<open>NOERROR\<close>, \<open>NxDomain\<close> exactly for \<open>NXDOMAIN\<close>, and \<open>Error\<close>
  exactly for every other rcode, assigned or not.
\<close>

theorem convertRcode_classifies:
  "(convertRcode rcode = RESPONSE_QUERY \<longleftrightarrow> rcode = Rcode_NOERROR)
   \<and> (convertRcode rcode = RESPONSE_NXDOMAIN \<longleftrightarrow> rcode = Rcode_NXDOMAIN)
   \<and> (convertRcode rcode = RESPONSE_ERROR
        \<longleftrightarrow> rcode \<noteq> Rcode_NOERROR \<and> rcode \<noteq> Rcode_NXDOMAIN)
   \<and> convertRcode Rcode_NOERROR = RESPONSE_QUERY
   \<and> convertRcode Rcode_NXDOMAIN = RESPONSE_NXDOMAIN"
  by (auto simp: convertRcode_def Rcode_NOERROR_def Rcode_NXDOMAIN_def)

theorem convertRcode_classifies_witness:
  "convertRcode (Rcode 2) = RESPONSE_ERROR \<and> convertRcode (Rcode 3841) = RESPONSE_ERROR
   \<and> convertRcode (Rcode 0) = RESPONSE_QUERY \<and> convertRcode (Rcode 3) = RESPONSE_NXDOMAIN"
  using convertRcode_classifies[of "Rcode 2"] convertRcode_classifies[of "Rcode 3841"]
        convertRcode_classifies[of "Rcode 0"]
  by (simp add: Rcode_NOERROR_def Rcode_NXDOMAIN_def)

text \<open>
  C2, at the input where the constructor departs from it. With \<open>max_table_size = 1024\<close>
  and \<open>min_table_size = 2\<^sup>3\<^sup>2\<close> the maximum is smaller than the minimum, and both prefix
  lengths are in range. The public constructor narrows \<open>min_table_size\<close> to the \<^verbatim>\<open>int\<close>
  0, the comparison is \<open>1024 < 0\<close>, and the constructor returns a limiter instead of
  throwing \<^verbatim>\<open>InvalidParameter\<close>.
\<close>

theorem new_ResponseLimiter_accepts_max_below_min:
  "(1024 :: size_t) < 4294967296
   \<and> int_of_size_t 4294967296 = 0
   \<and> (\<exists>impl. new_ResponseLimiter deps 1024 4294967296 rps nps eps w s 24 56 lo now pid
               = Returns impl)"
proof -
  have z: "int_of_size_t 4294967296 = 0" by (simp add: int_of_size_t_def)
  have "\<not> (1024 :: size_t) < size_t_of_int 0" by (simp add: size_t_of_int_def)
  from new_ResponseLimiterImpl_returns[OF _ _ _ _ this, of 24 56]
  show ?thesis by (simp add: new_ResponseLimiter_def z)
qed

subsection \<open>check\<close>

lemma check_tcp:
  "check deps impl client_addr True qclass qtype qname rcode now log_msg
     = Returns (RRL_OK, impl, log_msg)"
  by (simp add: check_def)

lemma check_all_tcp:
  "list_all call_is_tcp calls \<Longrightarrow>
   check_all deps impl calls = Returns (map (\<lambda>c. (RRL_OK, call_log_msg c)) calls, impl)"
  by (induction calls) (simp_all add: check_def)

text \<open>
  A call over an unreliable transport that returns has found an entry; its verdict is
  the one \<open>updateBalance\<close> gave, the table and the bases are those \<open>updateBalance\<close>
  left, nothing else of the limiter has changed, and the buffer is as it was passed.
\<close>

lemma check_Returns:
  assumes "check deps impl client_addr False qclass qtype qname rcode now log_msg
             = Returns (v, impl1, log1)"
  shows "\<exists>entry table1 bases1.
           getEntry deps
             (new_RRLKey deps client_addr qtype qname qclass (convertRcode rcode)
                (impl_ipv4_mask impl) (impl_ipv6_mask impl) (impl_hash_seed impl))
             (impl_ts_bases impl) (impl_rates impl) now (impl_window impl) (impl_table impl)
             = Some (Some entry, table1, bases1)
           \<and> updateBalance deps entry bases1 (impl_rates impl) (impl_slip impl) 0 now
                (impl_window impl) table1
               = (v, impl_table impl1, impl_ts_bases impl1)
           \<and> impl1 = impl\<lparr>impl_table := impl_table impl1, impl_ts_bases := impl_ts_bases impl1\<rparr>
           \<and> log1 = log_msg"
  using assms
  by (auto simp: check_def Let_def split: option.splits prod.splits if_splits)

lemma check_frame:
  assumes "check deps impl client_addr is_tcp qclass qtype qname rcode now log_msg
             = Returns (v, impl1, log1)"
  shows "impl_rates impl1 = impl_rates impl \<and> impl_window impl1 = impl_window impl
         \<and> impl_slip impl1 = impl_slip impl \<and> impl_log_only impl1 = impl_log_only impl"
proof (cases is_tcp)
  case True
  with assms show ?thesis by (simp add: check_tcp)
next
  case False
  with check_Returns[of deps impl client_addr qclass qtype qname rcode now log_msg v impl1 log1]
    assms
  have "impl1 = impl\<lparr>impl_table := impl_table impl1, impl_ts_bases := impl_ts_bases impl1\<rparr>"
    by auto
  then show ?thesis
    by (metis ResponseLimiterImpl.select_convs(2,3,4,6) ResponseLimiterImpl.surjective
          ResponseLimiterImpl.update_convs(1,5))
qed

lemma check_all_frame:
  "check_all deps impl calls = Returns (vs, impl1) \<Longrightarrow>
   impl_rates impl1 = impl_rates impl \<and> impl_window impl1 = impl_window impl
   \<and> impl_slip impl1 = impl_slip impl \<and> impl_log_only impl1 = impl_log_only impl"
proof (induction calls arbitrary: impl vs)
  case Nil
  then show ?case by simp
next
  case (Cons c cs)
  from Cons.prems obtain v impl2 l ws where
    c: "check deps impl (call_addr c) (call_is_tcp c) (call_qclass c) (call_qtype c)
          (call_qname c) (call_rcode c) (call_now c) (call_log_msg c) = Returns (v, impl2, l)"
    and cs: "check_all deps impl2 cs = Returns (ws, impl1)"
    by (auto split: outcome.splits)
  from check_frame[OF c] Cons.IH[OF cs] show ?case by simp
qed

text \<open>Reading a run of \<open>serve\<close> back as the constructor and the calls.\<close>

lemma answers_serve:
  assumes "answers (serve deps limiter calls) = Some vs"
  shows "\<exists>impl impl1. limiter = Returns impl \<and> check_all deps impl calls = Returns (vs, impl1)"
proof (cases limiter)
  case (Returns impl)
  with assms have "answers (check_all deps impl calls) = Some vs" by simp
  then obtain impl1 where "check_all deps impl calls = Returns (vs, impl1)"
    by (cases "check_all deps impl calls") auto
  with Returns show ?thesis by blast
qed (use assms in simp_all)

lemma check_all_snoc:
  "check_all deps impl (calls @ [c]) = Returns (vs, impl2) \<Longrightarrow>
   \<exists>ws impl1 v l.
      check_all deps impl calls = Returns (ws, impl1)
      \<and> check deps impl1 (call_addr c) (call_is_tcp c) (call_qclass c) (call_qtype c)
           (call_qname c) (call_rcode c) (call_now c) (call_log_msg c) = Returns (v, impl2, l)
      \<and> vs = ws @ [(v, l)]"
proof (induction calls arbitrary: impl vs)
  case Nil
  then show ?case by (auto split: outcome.splits)
next
  case (Cons d ds)
  from Cons.prems obtain v0 impl0 l0 us where
    d: "check deps impl (call_addr d) (call_is_tcp d) (call_qclass d) (call_qtype d)
          (call_qname d) (call_rcode d) (call_now d) (call_log_msg d) = Returns (v0, impl0, l0)"
    and ds: "check_all deps impl0 (ds @ [c]) = Returns (us, impl2)"
    and vs: "vs = (v0, l0) # us"
    by (auto split: outcome.splits)
  from Cons.IH[OF ds] obtain ws impl1 v l where
    "check_all deps impl0 ds = Returns (ws, impl1)"
    "check deps impl1 (call_addr c) (call_is_tcp c) (call_qclass c) (call_qtype c)
       (call_qname c) (call_rcode c) (call_now c) (call_log_msg c) = Returns (v, impl2, l)"
    "us = ws @ [(v, l)]"
    by blast
  with d vs show ?case by simp
qed

text \<open>
  The run of the first end-to-end scenario of the specification, with one call more:
  a limiter with rate 5, window 15, slip 2, prefixes 24 and 56, table sizes 64 and 1024,
  and six calls in the same second from 192.0.2.7 for \<open>a.example\<close>, class IN, type A,
  rcode \<open>NOERROR\<close>. The sixth verdict is \<open>DROP\<close>.
\<close>

lemma six_calls:
  "answers (serve rrl_collaborators
      (new_ResponseLimiter rrl_collaborators 1024 64 5 5 5 15 2 24 56 False 1000000 4242)
      (replicate 5 (Call (IOEndpoint AF_INET [192, 0, 2, 7]) False 1 1 (Some ''a.example'')
                      Rcode_NOERROR 1000000 '''')
       @ [Call (IOEndpoint AF_INET [192, 0, 2, 7]) False 1 1 (Some ''a.example'')
            Rcode_NOERROR 1000000 log_msg]))
   = Some [(RRL_OK, ''''), (RRL_OK, ''''), (RRL_OK, ''''), (RRL_OK, ''''), (RRL_OK, ''''),
           (RRL_DROP, log_msg)]"
  by code_simp

lemma sixth_call:
  "\<exists>impl5 impl6.
     check rrl_collaborators impl5 (IOEndpoint AF_INET [192, 0, 2, 7]) False 1 1
       (Some ''a.example'') Rcode_NOERROR 1000000 log_msg = Returns (RRL_DROP, impl6, log_msg)"
proof -
  from answers_serve[OF six_calls[of log_msg]] obtain impl impl6 where
    "check_all rrl_collaborators impl
       (replicate 5 (Call (IOEndpoint AF_INET [192, 0, 2, 7]) False 1 1 (Some ''a.example'')
                       Rcode_NOERROR 1000000 '''')
        @ [Call (IOEndpoint AF_INET [192, 0, 2, 7]) False 1 1 (Some ''a.example'')
             Rcode_NOERROR 1000000 log_msg])
     = Returns ([(RRL_OK, ''''), (RRL_OK, ''''), (RRL_OK, ''''), (RRL_OK, ''''), (RRL_OK, ''''),
                 (RRL_DROP, log_msg)], impl6)"
    by blast
  from check_all_snoc[OF this] show ?thesis by auto
qed

subsection \<open>Claims about check\<close>

text \<open>
  C1. A call to \<open>check\<close> with \<open>is_tcp = true\<close> returns \<open>OK\<close> and the limiter it was
  called on, unchanged: table, entries and timestamp bases are as before, and so is the
  buffer. Any sequence of such calls returns \<open>OK\<close> for each and leaves the limiter
  unchanged. On a fresh limiter the entry count is 0 and any number of such calls
  leaves it at 0 (the entry count of the table is the one of the specification).
\<close>

theorem check_tcp_bypass:
  "check deps impl client_addr True qclass qtype qname rcode now log_msg
     = Returns (RRL_OK, impl, log_msg)
   \<and> (list_all call_is_tcp calls \<longrightarrow>
        check_all deps impl calls = Returns (map (\<lambda>c. (RRL_OK, call_log_msg c)) calls, impl))
   \<and> (new_ResponseLimiter rrl_collaborators mx mn rps nps eps w s p4 p6 lo now0 pid
          = Returns fresh
        \<and> list_all call_is_tcp calls \<longrightarrow>
        getEntryCount rrl_collaborators fresh = 0
        \<and> (\<exists>vs impl1. check_all rrl_collaborators fresh calls = Returns (vs, impl1)
              \<and> getEntryCount rrl_collaborators impl1 = 0))"
proof -
  have "getEntryCount rrl_collaborators fresh = 0"
    if "new_ResponseLimiter rrl_collaborators mx mn rps nps eps w s p4 p6 lo now0 pid
          = Returns fresh"
    using new_ResponseLimiterImpl_Returns[OF that[unfolded new_ResponseLimiter_def]]
    by (simp add: getEntryCount_def rrl_collaborators_def RRLTable_getEntryCount_def
          RRLTable_expand_def RRLTable_expandEntries_def RRLTable_new_def)
  then show ?thesis
    by (simp add: check_tcp check_all_tcp)
qed

theorem check_tcp_bypass_witness:
  "\<exists>fresh.
     new_ResponseLimiter rrl_collaborators 1024 64 5 5 5 15 2 24 56 False 1000000 4242
       = Returns fresh
     \<and> getEntryCount rrl_collaborators fresh = 0
     \<and> check rrl_collaborators fresh (IOEndpoint AF_INET [192, 0, 2, 7]) True 1 1
          (Some ''a.example'') Rcode_NOERROR 1000000 '''' = Returns (RRL_OK, fresh, '''')
     \<and> (\<exists>vs impl1.
           check_all rrl_collaborators fresh
             (replicate 100 (Call (IOEndpoint AF_INET [192, 0, 2, 7]) True 1 1
                               (Some ''a.example'') Rcode_NOERROR 1000000 ''''))
             = Returns (vs, impl1)
           \<and> getEntryCount rrl_collaborators impl1 = 0)"
proof -
  have "(64 :: size_t) < 2 ^ 31" by simp
  from new_ResponseLimiter_throws_iff(2)[OF this, of rrl_collaborators 1024 5 5 5 15 2 24 56
         False 1000000 4242]
  obtain fresh where
    c: "new_ResponseLimiter rrl_collaborators 1024 64 5 5 5 15 2 24 56 False 1000000 4242
          = Returns fresh"
    by auto
  have t: "list_all call_is_tcp
             (replicate 100 (Call (IOEndpoint AF_INET [192, 0, 2, 7]) True 1 1
                               (Some ''a.example'') Rcode_NOERROR 1000000 ''''))"
    by (simp add: list_all_iff)
  from check_tcp_bypass[where deps = rrl_collaborators and impl = fresh
         and client_addr = "IOEndpoint AF_INET [192, 0, 2, 7]" and qclass = 1 and qtype = 1
         and qname = "Some ''a.example''" and rcode = Rcode_NOERROR and now = 1000000
         and log_msg = "''''"
         and calls = "replicate 100 (Call (IOEndpoint AF_INET [192, 0, 2, 7]) True 1 1
                           (Some ''a.example'') Rcode_NOERROR 1000000 '''')"
         and mx = 1024 and mn = 64 and rps = 5 and nps = 5 and eps = 5 and w = 15 and s = 2
         and ?p4.0 = 24 and ?p6.0 = 56 and lo = False and ?now0.0 = 1000000 and pid = 4242
         and fresh = fresh] c t
  show ?thesis by (intro exI[of _ fresh]) blast
qed

text \<open>
  C10. The verdict of \<open>check\<close> and the limiter it leaves do not depend on the contents of
  the log-message buffer: two calls that differ in the buffer only have the same outcome,
  with the same verdict and the same limiter, and each returns its buffer as it was
  passed.
\<close>

theorem check_ignores_log_msg:
  "(case check deps impl client_addr is_tcp qclass qtype qname rcode now log_a of
      Returns (v, impl1, log1) \<Rightarrow>
        log1 = log_a
        \<and> check deps impl client_addr is_tcp qclass qtype qname rcode now log_b
            = Returns (v, impl1, log_b)
    | Throws e \<Rightarrow>
        check deps impl client_addr is_tcp qclass qtype qname rcode now log_b = Throws e
    | Aborts \<Rightarrow>
        check deps impl client_addr is_tcp qclass qtype qname rcode now log_b = Aborts
    | Diverges \<Rightarrow>
        check deps impl client_addr is_tcp qclass qtype qname rcode now log_b = Diverges)"
  by (auto simp: check_def Let_def split: option.splits prod.splits)

theorem check_ignores_log_msg_witness:
  "\<exists>impl5 impl6.
     check rrl_collaborators impl5 (IOEndpoint AF_INET [192, 0, 2, 7]) False 1 1
       (Some ''a.example'') Rcode_NOERROR 1000000 ''stale text''
       = Returns (RRL_DROP, impl6, ''stale text'')
     \<and> check rrl_collaborators impl5 (IOEndpoint AF_INET [192, 0, 2, 7]) False 1 1
         (Some ''a.example'') Rcode_NOERROR 1000000 '''' = Returns (RRL_DROP, impl6, '''')"
proof -
  from sixth_call[of "''stale text''"] obtain impl5 impl6 where
    c: "check rrl_collaborators impl5 (IOEndpoint AF_INET [192, 0, 2, 7]) False 1 1
          (Some ''a.example'') Rcode_NOERROR 1000000 ''stale text''
          = Returns (RRL_DROP, impl6, ''stale text'')"
    by blast
  from check_ignores_log_msg[where deps = rrl_collaborators and impl = impl5
         and client_addr = "IOEndpoint AF_INET [192, 0, 2, 7]" and is_tcp = False
         and qclass = 1 and qtype = 1 and qname = "Some ''a.example''"
         and rcode = Rcode_NOERROR and now = 1000000 and log_a = "''stale text''"
         and log_b = "''''"] c
  show ?thesis by (intro exI[of _ impl5] exI[of _ impl6]) simp
qed

text \<open>
  C6. A call to \<open>check\<close> with \<open>is_tcp = false\<close> that returns gives exactly the verdict
  that \<open>updateBalance\<close> produced on the entry that \<open>getEntry\<close> returned for the key
  built from the arguments of the call, and this verdict is \<open>OK\<close>, \<open>DROP\<close> or \<open>SLIP\<close>.
\<close>

theorem check_returns_updateBalance_verdict:
  assumes "check deps impl client_addr False qclass qtype qname rcode now log_msg
             = Returns (v, impl1, log1)"
  shows "(\<exists>entry table1 bases1.
            getEntry deps
              (new_RRLKey deps client_addr qtype qname qclass (convertRcode rcode)
                 (impl_ipv4_mask impl) (impl_ipv6_mask impl) (impl_hash_seed impl))
              (impl_ts_bases impl) (impl_rates impl) now (impl_window impl) (impl_table impl)
              = Some (Some entry, table1, bases1)
            \<and> v = fst (updateBalance deps entry bases1 (impl_rates impl) (impl_slip impl) 0 now
                         (impl_window impl) table1))
         \<and> (v = RRL_OK \<or> v = RRL_DROP \<or> v = RRL_SLIP)"
proof -
  from check_Returns[OF assms] obtain entry table1 bases1 where
    "getEntry deps
       (new_RRLKey deps client_addr qtype qname qclass (convertRcode rcode)
          (impl_ipv4_mask impl) (impl_ipv6_mask impl) (impl_hash_seed impl))
       (impl_ts_bases impl) (impl_rates impl) now (impl_window impl) (impl_table impl)
       = Some (Some entry, table1, bases1)"
    "updateBalance deps entry bases1 (impl_rates impl) (impl_slip impl) 0 now
       (impl_window impl) table1 = (v, impl_table impl1, impl_ts_bases impl1)"
    by blast
  moreover have "v = RRL_OK \<or> v = RRL_DROP \<or> v = RRL_SLIP" by (cases v) simp_all
  ultimately show ?thesis by (metis fst_conv)
qed

theorem check_returns_updateBalance_verdict_witness:
  "\<exists>impl5 impl6 entry table1 bases1.
     check rrl_collaborators impl5 (IOEndpoint AF_INET [192, 0, 2, 7]) False 1 1
       (Some ''a.example'') Rcode_NOERROR 1000000 '''' = Returns (RRL_DROP, impl6, '''')
     \<and> getEntry rrl_collaborators
          (new_RRLKey rrl_collaborators (IOEndpoint AF_INET [192, 0, 2, 7]) 1
             (Some ''a.example'') 1 (convertRcode Rcode_NOERROR)
             (impl_ipv4_mask impl5) (impl_ipv6_mask impl5) (impl_hash_seed impl5))
          (impl_ts_bases impl5) (impl_rates impl5) 1000000 (impl_window impl5)
          (impl_table impl5)
          = Some (Some entry, table1, bases1)
     \<and> RRL_DROP = fst (updateBalance rrl_collaborators entry bases1 (impl_rates impl5)
                         (impl_slip impl5) 0 1000000 (impl_window impl5) table1)"
proof -
  from sixth_call[of "''''"] obtain impl5 impl6 where
    c: "check rrl_collaborators impl5 (IOEndpoint AF_INET [192, 0, 2, 7]) False 1 1
          (Some ''a.example'') Rcode_NOERROR 1000000 '''' = Returns (RRL_DROP, impl6, '''')"
    by blast
  from check_returns_updateBalance_verdict[OF c] c show ?thesis by blast
qed

text \<open>
  C4, as the claim states it, fails on the second scenario of the specification. The
  first five calls are answered \<open>OK\<close> and leave no entry marked \<open>logging\<close>; the sixth is
  the first penalized response of its entry, its verdict is \<open>DROP\<close>; the buffer, passed
  empty, comes back empty, and still no entry is marked \<open>logging\<close>.
\<close>

theorem check_drop_hands_out_no_log:
  "answers (serve rrl_collaborators
      (new_ResponseLimiter rrl_collaborators 1024 64 5 5 5 15 2 24 56 False 1000000 4242)
      (replicate 6 (Call (IOEndpoint AF_INET [192, 0, 2, 7]) False 1 1 (Some ''a.example'')
                      Rcode_NOERROR 1000000 '''')))
   = Some [(RRL_OK, ''''), (RRL_OK, ''''), (RRL_OK, ''''), (RRL_OK, ''''), (RRL_OK, ''''),
           (RRL_DROP, '''')]
   \<and> map_option logging_entries (limiter_after (serve rrl_collaborators
      (new_ResponseLimiter rrl_collaborators 1024 64 5 5 5 15 2 24 56 False 1000000 4242)
      (replicate 5 (Call (IOEndpoint AF_INET [192, 0, 2, 7]) False 1 1 (Some ''a.example'')
                      Rcode_NOERROR 1000000 '''')))) = Some []
   \<and> map_option logging_entries (limiter_after (serve rrl_collaborators
      (new_ResponseLimiter rrl_collaborators 1024 64 5 5 5 15 2 24 56 False 1000000 4242)
      (replicate 6 (Call (IOEndpoint AF_INET [192, 0, 2, 7]) False 1 1 (Some ''a.example'')
                      Rcode_NOERROR 1000000 '''')))) = Some []"
  by code_simp

text \<open>
  C4, amended. When a call to \<open>check\<close> with \<open>is_tcp = false\<close> yields a penalized verdict
  (\<open>DROP\<close> or \<open>SLIP\<close>), \<open>check\<close> returns the verdict of \<open>updateBalance\<close> with the
  log-message buffer unchanged, and the limiter is exactly as \<open>updateBalance\<close> left it:
  the table and the bases are those \<open>updateBalance\<close> returned and no other member has
  changed. The logging step is not compiled, so \<open>check\<close> itself marks no entry and hands
  out no log record.
\<close>

theorem check_penalized_leaves_log_msg:
  assumes "check deps impl client_addr False qclass qtype qname rcode now log_msg
             = Returns (v, impl1, log1)"
      and "v = RRL_DROP \<or> v = RRL_SLIP"
  shows "log1 = log_msg
         \<and> (\<exists>entry table1 bases1.
               getEntry deps
                 (new_RRLKey deps client_addr qtype qname qclass (convertRcode rcode)
                    (impl_ipv4_mask impl) (impl_ipv6_mask impl) (impl_hash_seed impl))
                 (impl_ts_bases impl) (impl_rates impl) now (impl_window impl)
                 (impl_table impl)
                 = Some (Some entry, table1, bases1)
               \<and> updateBalance deps entry bases1 (impl_rates impl) (impl_slip impl) 0 now
                    (impl_window impl) table1
                   = (v, impl_table impl1, impl_ts_bases impl1))
         \<and> impl1 = impl\<lparr>impl_table := impl_table impl1, impl_ts_bases := impl_ts_bases impl1\<rparr>"
  using check_Returns[OF assms(1)] by blast

theorem check_penalized_leaves_log_msg_witness:
  "\<exists>impl5 impl6.
     check rrl_collaborators impl5 (IOEndpoint AF_INET [192, 0, 2, 7]) False 1 1
       (Some ''a.example'') Rcode_NOERROR 1000000 ''stale text''
       = Returns (RRL_DROP, impl6, ''stale text'')
     \<and> impl6 = impl5\<lparr>impl_table := impl_table impl6, impl_ts_bases := impl_ts_bases impl6\<rparr>"
proof -
  from sixth_call[of "''stale text''"] obtain impl5 impl6 where
    c: "check rrl_collaborators impl5 (IOEndpoint AF_INET [192, 0, 2, 7]) False 1 1
          (Some ''a.example'') Rcode_NOERROR 1000000 ''stale text''
          = Returns (RRL_DROP, impl6, ''stale text'')"
    by blast
  from check_penalized_leaves_log_msg[OF c] c show ?thesis by blast
qed

text \<open>
  C8. For every limiter the constructor returns and every sequence of calls to \<open>check\<close>
  that it answers, the accessors give the configuration the constructor received:
  \<open>getWindow\<close> the window, \<open>getSlip\<close> the slip, \<open>isLogOnly\<close> the log-only flag, and
  \<open>getResponseRate\<close>, \<open>getNXDOMAINRate\<close> and \<open>getErrorRate\<close> the three rates.
\<close>

theorem accessors_return_configuration:
  assumes "new_ResponseLimiter deps mx mn rps nps eps w s p4 p6 lo now pid = Returns impl"
      and "check_all deps impl calls = Returns (vs, impl1)"
  shows "getWindow impl1 = w \<and> getSlip impl1 = s \<and> isLogOnly impl1 = lo
         \<and> getResponseRate impl1 = rps \<and> getNXDOMAINRate impl1 = nps
         \<and> getErrorRate impl1 = eps"
  using new_ResponseLimiterImpl_Returns[OF assms(1)[unfolded new_ResponseLimiter_def]]
        check_all_frame[OF assms(2)]
  by (simp add: getWindow_def getSlip_def isLogOnly_def getResponseRate_def
        getNXDOMAINRate_def getErrorRate_def new_RRLRate_def)

theorem accessors_return_configuration_witness:
  "\<exists>impl vs impl1.
     new_ResponseLimiter rrl_collaborators 1024 64 5 6 7 15 2 24 56 False 1000000 4242
       = Returns impl
     \<and> check_all rrl_collaborators impl
         (replicate 7 (Call (IOEndpoint AF_INET [192, 0, 2, 7]) False 1 1 (Some ''a.example'')
                         Rcode_NOERROR 1000000 ''''))
         = Returns (vs, impl1)
     \<and> getWindow impl1 = 15 \<and> getSlip impl1 = 2 \<and> isLogOnly impl1 = False
     \<and> getResponseRate impl1 = 5 \<and> getNXDOMAINRate impl1 = 6 \<and> getErrorRate impl1 = 7"
proof -
  have "answers (serve rrl_collaborators
          (new_ResponseLimiter rrl_collaborators 1024 64 5 6 7 15 2 24 56 False 1000000 4242)
          (replicate 7 (Call (IOEndpoint AF_INET [192, 0, 2, 7]) False 1 1 (Some ''a.example'')
                          Rcode_NOERROR 1000000 '''')))
        = Some [(RRL_OK, ''''), (RRL_OK, ''''), (RRL_OK, ''''), (RRL_OK, ''''), (RRL_OK, ''''),
                (RRL_DROP, ''''), (RRL_SLIP, '''')]"
    by code_simp
  from answers_serve[OF this] obtain impl impl1 where
    c: "new_ResponseLimiter rrl_collaborators 1024 64 5 6 7 15 2 24 56 False 1000000 4242
          = Returns impl"
    and r: "check_all rrl_collaborators impl
         (replicate 7 (Call (IOEndpoint AF_INET [192, 0, 2, 7]) False 1 1 (Some ''a.example'')
                         Rcode_NOERROR 1000000 ''''))
         = Returns ([(RRL_OK, ''''), (RRL_OK, ''''), (RRL_OK, ''''), (RRL_OK, ''''),
                     (RRL_OK, ''''), (RRL_DROP, ''''), (RRL_SLIP, '''')], impl1)"
    by blast
  from accessors_return_configuration[OF c r] c r show ?thesis by blast
qed

subsection \<open>The table always has an entry to give\<close>









end
